theory Spec2Isabelle
  imports Main "HOL-Library.AList" "HOL-Library.Sublist"
begin

section \<open>JavaScript values\<close>

text \<open>
  The values the client handles are the results of \<^verbatim>\<open>JSON.parse\<close>, the properties read
  from them, and \<^verbatim>\<open>undefined\<close>. The model represents a fragment of them: a number is a
  safe integer (of magnitude below \<open>2^53\<close>, where JavaScript's arithmetic and its printing
  of numbers are exact), a string holds ASCII characters, and an object is its list of own
  properties in insertion order (property names that are array indices, which JavaScript
  lists first, are outside the fragment). The depth of the call stack is not modelled.
\<close>

datatype jsval =
    JUndefined
  | JNull
  | JBool bool
  | JNum int
  | JStr string
  | JArr "jsval list"
  | JObj "(string \<times> jsval) list"

text \<open>
  What the source can throw: a \<^verbatim>\<open>TypeError\<close> (a property read on \<^verbatim>\<open>undefined\<close> or
  \<^verbatim>\<open>null\<close>, a call of something that is no function), the \<^verbatim>\<open>SyntaxError\<close> of
  \<^verbatim>\<open>JSON.parse\<close>, and the \<^verbatim>\<open>new Error(message)\<close> of the request methods.
  \<open>Unmodelled\<close> is no error of the source: a run of the model ends with it where the
  source converts a value that is outside the fragment (a number that is no safe integer,
  a numeric string other than plain decimal digits), and nothing is said about what the
  source does from there.
\<close>

datatype error = TypeError | SyntaxError | Error string | Unmodelled

type_synonym 'a result = "error + 'a"

subsection \<open>Decimal digits\<close>

definition digit_char :: "nat \<Rightarrow> char" where
  "digit_char d = ''0123456789'' ! (d mod 10)"

function dec_digits :: "int \<Rightarrow> string" where
  "dec_digits i =
     (if i < 10 then [digit_char (nat i)]
      else dec_digits (i div 10) @ [digit_char (nat (i mod 10))])"
  by pat_completeness auto
termination
  by (relation "measure nat") auto

declare dec_digits.simps [simp del]

definition dec_nat :: "nat \<Rightarrow> string" where
  "dec_nat n = dec_digits (int n)"

definition dec_int :: "int \<Rightarrow> string" where
  "dec_int i = (if i < 0 then ''-'' @ dec_digits (- i) else dec_digits i)"

text \<open>\<^verbatim>\<open>Number.isSafeInteger\<close>, and the string of a number: the decimal digits for a safe
  integer, nothing (\<open>None\<close>) for a number outside the fragment, which JavaScript may round
  or print with an exponent.\<close>

definition safe_integer :: "int \<Rightarrow> bool" where
  "safe_integer i = (- 9007199254740992 < i \<and> i < 9007199254740992)"

definition number_toString :: "int \<Rightarrow> string option" where
  "number_toString i = (if safe_integer i then Some (dec_int i) else None)"

subsection \<open>Conversions and property reads\<close>

fun join_with :: "string \<Rightarrow> string list \<Rightarrow> string" where
  "join_with sep [] = []"
| "join_with sep [x] = x"
| "join_with sep (x # y # ys) = x @ sep @ join_with sep (y # ys)"

text \<open>\<^verbatim>\<open>ToString\<close>, as string concatenation applies it (\<^verbatim>\<open>endpoint + '/' + item.id\<close>);
  \<open>None\<close> where a number outside the fragment would have to be printed.\<close>

fun js_toString :: "jsval \<Rightarrow> string option" where
  "js_toString JUndefined = Some ''undefined''"
| "js_toString JNull = Some ''null''"
| "js_toString (JBool b) = Some (if b then ''true'' else ''false'')"
| "js_toString (JNum i) = number_toString i"
| "js_toString (JStr s) = Some s"
| "js_toString (JArr xs) =
     map_option (join_with '','')
       (those (map (\<lambda>x. if x = JUndefined \<or> x = JNull then Some [] else js_toString x) xs))"
| "js_toString (JObj kv) = Some ''[object Object]''"

text \<open>A property read \<^verbatim>\<open>v.name\<close>: a \<^verbatim>\<open>TypeError\<close> on \<^verbatim>\<open>undefined\<close> and \<^verbatim>\<open>null\<close>, the own
  property of an object, the \<^verbatim>\<open>length\<close> of an array or a string, \<^verbatim>\<open>undefined\<close> otherwise.
  (Index properties and inherited methods are not values of this model; the source reads
  only \<^verbatim>\<open>meta\<close>, \<^verbatim>\<open>data\<close>, \<^verbatim>\<open>pagination\<close>, \<^verbatim>\<open>total_pages\<close>, \<^verbatim>\<open>length\<close> and \<^verbatim>\<open>id\<close>.)\<close>

fun js_get :: "jsval \<Rightarrow> string \<Rightarrow> jsval result" where
  "js_get JUndefined name = Inl TypeError"
| "js_get JNull name = Inl TypeError"
| "js_get (JObj kv) name = Inr (case map_of kv name of None \<Rightarrow> JUndefined | Some v \<Rightarrow> v)"
| "js_get (JArr xs) name = Inr (if name = ''length'' then JNum (int (length xs)) else JUndefined)"
| "js_get (JStr s) name = Inr (if name = ''length'' then JNum (int (length s)) else JUndefined)"
| "js_get (JBool b) name = Inr JUndefined"
| "js_get (JNum i) name = Inr JUndefined"


text \<open>
  \<^verbatim>\<open>ToNumber\<close>. Its result is a number of the fragment or \<^verbatim>\<open>NaN\<close>, and \<open>None\<close> where the
  model cannot tell. For a string: the empty string is 0; a string with a character that
  occurs in no numeric literal and is no white space is \<^verbatim>\<open>NaN\<close>; an optional minus sign
  and decimal digits of a safe integer are that integer; every other string (white space
  around a literal, a plus sign, a fraction, an exponent, a hexadecimal, octal or binary
  literal, \<^verbatim>\<open>Infinity\<close>, a character beyond ASCII) is left undecided.
\<close>

datatype number = Number int | NaN

definition is_digit :: "char \<Rightarrow> bool" where
  "is_digit c = (c \<in> set ''0123456789'')"

definition digit_val :: "char \<Rightarrow> int" where
  "digit_val c = int (length (takeWhile (\<lambda>d. d \<noteq> c) ''0123456789''))"

definition digits_val :: "string \<Rightarrow> int" where
  "digits_val ds = foldl (\<lambda>a c. 10 * a + digit_val c) 0 ds"

definition is_space :: "char \<Rightarrow> bool" where
  "is_space c = (c \<in> set [CHR 0x09, CHR 0x0A, CHR 0x0B, CHR 0x0C, CHR 0x0D, CHR 0x20])"

definition numeric_alphabet :: "char \<Rightarrow> bool" where
  "numeric_alphabet c =
     (c \<in> set ''0123456789+-.eExXoObBaAcCdDfFInity'' \<or> is_space c \<or> 128 \<le> (of_char c :: nat))"

definition plain_digits :: "string \<Rightarrow> bool" where
  "plain_digits ds = (ds \<noteq> [] \<and> list_all is_digit ds \<and> digits_val ds < 9007199254740992)"

definition string_toNumber :: "string \<Rightarrow> number option" where
  "string_toNumber s =
     (if s = [] then Some (Number 0)
      else if list_ex (\<lambda>c. \<not> numeric_alphabet c) s then Some NaN
      else if hd s = CHR ''-'' \<and> plain_digits (tl s) then Some (Number (- digits_val (tl s)))
      else if plain_digits s then Some (Number (digits_val s))
      else None)"

fun js_toNumber :: "jsval \<Rightarrow> number option" where
  "js_toNumber JUndefined = Some NaN"
| "js_toNumber JNull = Some (Number 0)"
| "js_toNumber (JBool b) = Some (Number (if b then 1 else 0))"
| "js_toNumber (JNum i) = (if safe_integer i then Some (Number i) else None)"
| "js_toNumber (JStr s) = string_toNumber s"
| "js_toNumber (JArr xs) =
     (case js_toString (JArr xs) of None \<Rightarrow> None | Some s \<Rightarrow> string_toNumber s)"
| "js_toNumber (JObj kv) = Some NaN"

text \<open>\<^verbatim>\<open>current < total\<close> with a number on the left: false when the right side is \<^verbatim>\<open>NaN\<close>,
  \<open>None\<close> when its number is undecided.\<close>

definition js_less :: "int \<Rightarrow> jsval \<Rightarrow> bool option" where
  "js_less current tot =
     (case js_toNumber tot of
        None \<Rightarrow> None
      | Some NaN \<Rightarrow> Some False
      | Some (Number t) \<Rightarrow> Some (current < t))"

section \<open>The transport and the other collaborators\<close>

datatype http_method = GET | POST | PUT | DELETE

record request =
  req_method :: http_method
  req_url :: string
  req_headers :: "(string \<times> string) list"
  req_timeout :: nat
  req_body :: "string option"

text \<open>What awaiting \<^verbatim>\<open>fetch(...)\<close> yields: it throws (network error, timeout), or it returns
  a response with its status, status text and body text.\<close>

datatype outcome = TransportFailure | Response nat string string

text \<open>\<^verbatim>\<open>response.ok\<close> of node-fetch.\<close>

definition ok :: "nat \<Rightarrow> bool" where
  "ok status = (200 \<le> status \<and> status < 300)"

text \<open>
  The code of other packages that the client calls: \<^verbatim>\<open>fetch\<close> of node-fetch acting on
  the world outside (a state of type \<open>'w\<close>: the network and the remote store),
  \<^verbatim>\<open>querystring.stringify\<close>, \<^verbatim>\<open>JSON.parse\<close> (\<open>None\<close> when it throws its
  \<^verbatim>\<open>SyntaxError\<close>) and \<^verbatim>\<open>JSON.stringify\<close> (\<open>None\<close> when it returns
  \<^verbatim>\<open>undefined\<close>). The outcome of a fetch is decided when the
  request is issued; when the awaiting code resumes is a matter of scheduling (below).
\<close>

record 'w env =
  fetch :: "'w \<Rightarrow> request \<Rightarrow> outcome \<times> 'w"
  stringify :: "(string \<times> jsval) list \<Rightarrow> string"
  JSON_parse :: "string \<Rightarrow> jsval option"
  JSON_stringify :: "jsval \<Rightarrow> string option"

section \<open>The client\<close>

record session =
  base :: string
  headers :: "(string \<times> string) list"
  meta :: jsval
  debug :: bool

definition constructor :: "string \<Rightarrow> string \<Rightarrow> bool \<Rightarrow> session" where
  "constructor hash token dbg =
     \<lparr> base = ''https://api.bigcommerce.com/stores/'' @ hash @ ''/'',
       headers = [(''X-Auth-Token'', token), (''Accept'', ''application/json''),
                  (''Content-Type'', ''application/json'')],
       meta = JObj [],
       debug = dbg \<rparr>"

text \<open>The message of the error thrown on a response that is not \<^verbatim>\<open>ok\<close>:
  \<^verbatim>\<open>`${response.status} - ${response.statusText}: ${await response.text()}`\<close>.\<close>

definition http_message :: "nat \<Rightarrow> string \<Rightarrow> string \<Rightarrow> string" where
  "http_message status statusText body = dec_nat status @ '' - '' @ statusText @ '': '' @ body"

subsection \<open>readResponse\<close>

definition readResponse :: "'w env \<Rightarrow> session \<Rightarrow> string \<Rightarrow> jsval result \<times> session" where
  "readResponse E s result =
     (if length result \<noteq> 0 then
        (case JSON_parse E result of
           None \<Rightarrow> (Inl SyntaxError, s)
         | Some body \<Rightarrow>
             (case js_get body ''meta'' of
                Inl e \<Rightarrow> (Inl e, s)
              | Inr m \<Rightarrow>
                  (case js_get body ''data'' of
                     Inl e \<Rightarrow> (Inl e, s\<lparr>meta := m\<rparr>)
                   | Inr d \<Rightarrow> (Inr d, s\<lparr>meta := m\<rparr>))))
      else (Inr JUndefined, s))"

subsection \<open>The four request methods\<close>

text \<open>
  Each method is a function of the session and the world that returns what the call
  settles with, the session and the world after it. The retry on a transport failure is a
  recursive call; the first argument bounds the number of attempts, and \<open>None\<close> means the
  call has not settled within that many attempts. The debug output is not modelled.
\<close>

definition get_request :: "session \<Rightarrow> string \<Rightarrow> request" where
  "get_request s endpoint =
     \<lparr> req_method = GET, req_url = base s @ endpoint, req_headers = headers s,
       req_timeout = 15000, req_body = None \<rparr>"

definition post_request :: "'w env \<Rightarrow> session \<Rightarrow> string \<Rightarrow> jsval \<Rightarrow> request" where
  "post_request E s endpoint body =
     \<lparr> req_method = POST, req_url = base s @ endpoint, req_headers = headers s,
       req_timeout = 15000, req_body = JSON_stringify E body \<rparr>"

definition put_request :: "'w env \<Rightarrow> session \<Rightarrow> string \<Rightarrow> jsval \<Rightarrow> request" where
  "put_request E s endpoint body =
     \<lparr> req_method = PUT, req_url = base s @ endpoint, req_headers = headers s,
       req_timeout = 15000, req_body = JSON_stringify E body \<rparr>"

definition delete_request :: "session \<Rightarrow> string \<Rightarrow> request" where
  "delete_request s endpoint =
     \<lparr> req_method = DELETE, req_url = base s @ endpoint, req_headers = headers s,
       req_timeout = 15000, req_body = None \<rparr>"

fun get :: "'w env \<Rightarrow> nat \<Rightarrow> session \<Rightarrow> 'w \<Rightarrow> string \<Rightarrow> (string \<times> jsval) list
    \<Rightarrow> (jsval result \<times> session \<times> 'w) option" where
  "get E 0 s w endpoint queries = None"
| "get E (Suc n) s w endpoint queries =
     (let endpoint' = endpoint @ ''?'' @ stringify E queries in
      case fetch E w (get_request s endpoint') of
        (TransportFailure, w') \<Rightarrow> get E n s w' endpoint' queries
      | (Response status statusText body, w') \<Rightarrow>
          if ok status then (case readResponse E s body of (r, s') \<Rightarrow> Some (r, s', w'))
          else Some (Inl (Error (http_message status statusText body)), s, w'))"

fun post :: "'w env \<Rightarrow> nat \<Rightarrow> session \<Rightarrow> 'w \<Rightarrow> string \<Rightarrow> jsval
    \<Rightarrow> (jsval result \<times> session \<times> 'w) option" where
  "post E 0 s w endpoint body = None"
| "post E (Suc n) s w endpoint body =
     (case fetch E w (post_request E s endpoint body) of
        (TransportFailure, w') \<Rightarrow> post E n s w' endpoint body
      | (Response status statusText text, w') \<Rightarrow>
          if ok status then (case readResponse E s text of (r, s') \<Rightarrow> Some (r, s', w'))
          else Some (Inl (Error (http_message status statusText text)), s, w'))"

fun put :: "'w env \<Rightarrow> nat \<Rightarrow> session \<Rightarrow> 'w \<Rightarrow> string \<Rightarrow> jsval
    \<Rightarrow> (jsval result \<times> session \<times> 'w) option" where
  "put E 0 s w endpoint body = None"
| "put E (Suc n) s w endpoint body =
     (case fetch E w (put_request E s endpoint body) of
        (TransportFailure, w') \<Rightarrow> put E n s w' endpoint body
      | (Response status statusText text, w') \<Rightarrow>
          if ok status then (case readResponse E s text of (r, s') \<Rightarrow> Some (r, s', w'))
          else Some (Inl (Error (http_message status statusText text)), s, w'))"

text \<open>In \<^verbatim>\<open>delete\<close> the catch branch awaits the retried call without returning: when the
  retried call throws, that error propagates; when it returns, control reaches
  \<^verbatim>\<open>response.ok\<close> with \<^verbatim>\<open>response\<close> still \<^verbatim>\<open>undefined\<close>.\<close>

fun delete :: "'w env \<Rightarrow> nat \<Rightarrow> session \<Rightarrow> 'w \<Rightarrow> string \<Rightarrow> (string \<times> jsval) list
    \<Rightarrow> (jsval result \<times> 'w) option" where
  "delete E 0 s w endpoint queries = None"
| "delete E (Suc n) s w endpoint queries =
     (let endpoint' = endpoint @ ''?'' @ stringify E queries in
      case fetch E w (delete_request s endpoint') of
        (TransportFailure, w') \<Rightarrow>
          (case delete E n s w' endpoint' queries of
             None \<Rightarrow> None
           | Some (Inl e, w'') \<Rightarrow> Some (Inl e, w'')
           | Some (Inr v, w'') \<Rightarrow> Some (Inl TypeError, w''))
      | (Response status statusText body, w') \<Rightarrow>
          if ok status then Some (Inr JUndefined, w')
          else Some (Inl (Error (http_message status statusText body)), w'))"

section \<open>Calls that are awaited later\<close>

text \<open>
  An async function runs synchronously up to its first \<^verbatim>\<open>await\<close>. For \<^verbatim>\<open>get\<close> and
  \<^verbatim>\<open>delete\<close> that prefix appends the query string to the local \<^verbatim>\<open>endpoint\<close> and calls
  \<^verbatim>\<open>fetch\<close>, so the request is issued by the call itself; the rest of the body runs when
  the scheduler resumes the call. A suspended call is recorded with its local
  \<^verbatim>\<open>endpoint\<close> and the outcome its fetch will yield. A suspended \<^verbatim>\<open>get\<close> of \<^verbatim>\<open>paginate\<close>
  refers to the caller's \<^verbatim>\<open>queries\<close> object, which \<^verbatim>\<open>paginate\<close> goes on assigning to, so
  the object's value is supplied when the call resumes; a suspended \<^verbatim>\<open>delete\<close> owns its
  \<^verbatim>\<open>queries\<close> and counts the calls of \<^verbatim>\<open>delete\<close> that await it inside their catch branch.
\<close>

datatype task =
    GetCall string outcome
  | DeleteCall string outcome "(string \<times> jsval) list" nat

datatype slot = Fulfilled jsval | Rejected error | Suspended task

definition get_start :: "'w env \<Rightarrow> session \<Rightarrow> 'w \<Rightarrow> string \<Rightarrow> (string \<times> jsval) list
    \<Rightarrow> task \<times> 'w" where
  "get_start E s w endpoint queries =
     (let endpoint' = endpoint @ ''?'' @ stringify E queries in
      case fetch E w (get_request s endpoint') of (out, w') \<Rightarrow> (GetCall endpoint' out, w'))"

definition delete_start :: "'w env \<Rightarrow> session \<Rightarrow> 'w \<Rightarrow> string \<Rightarrow> (string \<times> jsval) list
    \<Rightarrow> nat \<Rightarrow> task \<times> 'w" where
  "delete_start E s w endpoint queries awaiting =
     (let endpoint' = endpoint @ ''?'' @ stringify E queries in
      case fetch E w (delete_request s endpoint') of
        (out, w') \<Rightarrow> (DeleteCall endpoint' out queries awaiting, w'))"

text \<open>Resuming a suspended call with the outcome of its fetch: the catch branch starts the
  retried call (which suspends in turn), a response settles the call.\<close>

fun resume :: "'w env \<Rightarrow> session \<Rightarrow> 'w \<Rightarrow> (string \<times> jsval) list \<Rightarrow> task
    \<Rightarrow> slot \<times> session \<times> 'w" where
  "resume E s w queries (GetCall endpoint TransportFailure) =
     (case get_start E s w endpoint queries of (t, w') \<Rightarrow> (Suspended t, s, w'))"
| "resume E s w queries (GetCall endpoint (Response status statusText body)) =
     (if ok status then
        (case readResponse E s body of
           (Inl e, s') \<Rightarrow> (Rejected e, s', w)
         | (Inr v, s') \<Rightarrow> (Fulfilled v, s', w))
      else (Rejected (Error (http_message status statusText body)), s, w))"
| "resume E s w queries (DeleteCall endpoint TransportFailure own awaiting) =
     (case delete_start E s w endpoint own (Suc awaiting) of (t, w') \<Rightarrow> (Suspended t, s, w'))"
| "resume E s w queries (DeleteCall endpoint (Response status statusText body) own awaiting) =
     (if ok status then
        (if awaiting = 0 then (Fulfilled JUndefined, s, w) else (Rejected TypeError, s, w))
      else (Rejected (Error (http_message status statusText body)), s, w))"

text \<open>
  \<^verbatim>\<open>Promise.all\<close>, and \<^verbatim>\<open>BlueBirdProm.map\<close> with the mapper \<^verbatim>\<open>(prom) => prom\<close>, over an
  array of values and suspended calls. The schedule lists the array indices in the order
  in which the scheduler resumes the calls. The result is rejected with the first
  rejection that occurs, fulfilled with the values in index order once every entry is
  fulfilled, and still pending (\<open>None\<close>) when the schedule ends before that.
\<close>

fun is_Fulfilled :: "slot \<Rightarrow> bool" where
  "is_Fulfilled (Fulfilled v) = True"
| "is_Fulfilled (Rejected e) = False"
| "is_Fulfilled (Suspended t) = False"

fun slot_value :: "slot \<Rightarrow> jsval" where
  "slot_value (Fulfilled v) = v"
| "slot_value (Rejected e) = JUndefined"
| "slot_value (Suspended t) = JUndefined"

fun settle :: "'w env \<Rightarrow> (string \<times> jsval) list \<Rightarrow> nat list \<Rightarrow> session \<Rightarrow> 'w \<Rightarrow> slot list
    \<Rightarrow> (jsval list result \<times> session \<times> 'w) option" where
  "settle E queries [] s w slots =
     (if list_all is_Fulfilled slots then Some (Inr (map slot_value slots), s, w) else None)"
| "settle E queries (i # sched) s w slots =
     (if list_all is_Fulfilled slots then Some (Inr (map slot_value slots), s, w)
      else if i < length slots then
        (case slots ! i of
           Suspended t \<Rightarrow>
             (case resume E s w queries t of
                (Rejected e, s', w') \<Rightarrow> Some (Inl e, s', w')
              | (Fulfilled v, s', w') \<Rightarrow> settle E queries sched s' w' (slots[i := Fulfilled v])
              | (Suspended t', s', w') \<Rightarrow> settle E queries sched s' w' (slots[i := Suspended t']))
         | Fulfilled v \<Rightarrow> settle E queries sched s w slots
         | Rejected e \<Rightarrow> settle E queries sched s w slots)
      else settle E queries sched s w slots)"

text \<open>\<^verbatim>\<open>BlueBirdProm.map(input, (prom) => prom, { concurrency: 3 })\<close>. The library awaits each
  entry of the input and passes its value to the mapper; the option bounds the number of
  mapper results that are pending at once. This mapper returns the value it is given, so
  no mapper result is ever pending and the option has nothing to hold back.\<close>

definition BlueBirdProm_map :: "'w env \<Rightarrow> (string \<times> jsval) list \<Rightarrow> nat list \<Rightarrow> nat
    \<Rightarrow> session \<Rightarrow> 'w \<Rightarrow> slot list \<Rightarrow> (jsval list result \<times> session \<times> 'w) option" where
  "BlueBirdProm_map E queries sched concurrency s w input = settle E queries sched s w input"

subsection \<open>paginate and getAll\<close>

definition total_pages_of :: "session \<Rightarrow> jsval result" where
  "total_pages_of s =
     (case js_get (meta s) ''pagination'' of
        Inl e \<Rightarrow> Inl e
      | Inr p \<Rightarrow> js_get p ''total_pages'')"

text \<open>The inner function \<^verbatim>\<open>_paginate\<close> of \<^verbatim>\<open>paginate\<close>. It contains no \<^verbatim>\<open>await\<close>: each
  \<^verbatim>\<open>this.get(endpoint, queries)\<close> runs to its fetch and is appended still suspended. Next
  to its result it returns the world and the value of the caller's \<^verbatim>\<open>queries\<close> object.\<close>

function paginate_rec :: "'w env \<Rightarrow> session \<Rightarrow> 'w \<Rightarrow> string \<Rightarrow> (string \<times> jsval) list
    \<Rightarrow> slot list \<Rightarrow> int \<Rightarrow> slot list result \<times> 'w \<times> (string \<times> jsval) list" where
  "paginate_rec E s w endpoint queries accum current =
     (case total_pages_of s of
        Inl e \<Rightarrow> (Inl e, w, queries)
      | Inr tot \<Rightarrow>
          (let queries' = AList.update ''page'' (JNum (current + 1)) queries in
           case js_less current tot of
             None \<Rightarrow> (Inl Unmodelled, w, queries')
           | Some True \<Rightarrow>
               (case get_start E s w endpoint queries' of
                  (t, w') \<Rightarrow>
                    paginate_rec E s w' endpoint queries' (accum @ [Suspended t]) (current + 1))
           | Some False \<Rightarrow> (Inr accum, w, queries')))"
  by pat_completeness auto
termination
  by (relation "measure (\<lambda>(E, s, w, endpoint, queries, accum, current).
        case total_pages_of s of
          Inl e \<Rightarrow> 0
        | Inr tot \<Rightarrow>
            (case js_toNumber tot of
               None \<Rightarrow> 0
             | Some NaN \<Rightarrow> 0
             | Some (Number t) \<Rightarrow> nat (t - current)))")
     (auto simp: js_less_def split: option.splits number.splits)

declare paginate_rec.simps [simp del]

definition paginate :: "'w env \<Rightarrow> nat \<Rightarrow> session \<Rightarrow> 'w \<Rightarrow> string \<Rightarrow> (string \<times> jsval) list
    \<Rightarrow> (slot list result \<times> session \<times> 'w \<times> (string \<times> jsval) list) option" where
  "paginate E n s w endpoint queries =
     (case get E n s w endpoint queries of
        None \<Rightarrow> None
      | Some (Inl e, s', w') \<Rightarrow> Some (Inl e, s', w', queries)
      | Some (Inr d, s', w') \<Rightarrow>
          (case paginate_rec E s' w' endpoint queries [Fulfilled d] 1 of
             (r, w'', queries') \<Rightarrow> Some (r, s', w'', queries')))"

definition getAll :: "'w env \<Rightarrow> nat \<Rightarrow> nat list \<Rightarrow> session \<Rightarrow> 'w \<Rightarrow> string
    \<Rightarrow> (string \<times> jsval) list
    \<Rightarrow> (jsval result \<times> session \<times> 'w \<times> (string \<times> jsval) list) option" where
  "getAll E n sched s w endpoint queries =
     (case paginate E n s w endpoint queries of
        None \<Rightarrow> None
      | Some (Inl e, s', w', queries') \<Rightarrow> Some (Inl e, s', w', queries')
      | Some (Inr input, s', w', queries') \<Rightarrow>
          (case BlueBirdProm_map E queries' sched 3 s' w' input of
             None \<Rightarrow> None
           | Some (Inl e, s'', w'') \<Rightarrow> Some (Inl e, s'', w'', queries')
           | Some (Inr pages, s'', w'') \<Rightarrow> Some (Inr (JArr pages), s'', w'', queries')))"

subsection \<open>deleteAll\<close>





section \<open>Collaborators for concrete runs\<close>

text \<open>
  The theorems below hold for every environment. To run the client on concrete inputs
  the collaborators are given executable definitions: a transport that plays a script
  and keeps a log of the requests it was handed, and \<^verbatim>\<open>querystring.stringify\<close>,
  \<^verbatim>\<open>JSON.parse\<close> and \<^verbatim>\<open>JSON.stringify\<close> on the fragment of the values: safe integers and
  ASCII strings. They are what the library functions compute on that fragment only: a
  JSON text with a fraction, an exponent, an integer that is not safe or an escape of a
  character beyond ASCII is answered \<open>None\<close> by \<open>json_parse\<close>, which is then not the answer of
  \<^verbatim>\<open>JSON.parse\<close>, and a number that is not a safe integer is printed in digits. The runs
  below stay inside the fragment.
\<close>

subsection \<open>querystring.stringify\<close>

definition unreserved :: "char \<Rightarrow> bool" where
  "unreserved c =
     (c \<in> set ''ABCDEFGHIJKLMNOPQRSTUVWXYZabcdefghijklmnopqrstuvwxyz0123456789-_.!~*()''
      \<or> c = CHR 0x27)"

definition hex_char :: "nat \<Rightarrow> char" where
  "hex_char d = ''0123456789ABCDEF'' ! (d mod 16)"

definition qs_escape :: "string \<Rightarrow> string" where
  "qs_escape str =
     concat (map (\<lambda>c. if unreserved c then [c]
                       else [CHR ''%'', hex_char (of_char c div 16), hex_char (of_char c)]) str)"

fun stringifyPrimitive :: "jsval \<Rightarrow> string" where
  "stringifyPrimitive (JStr str) = str"
| "stringifyPrimitive (JNum i) = dec_int i"
| "stringifyPrimitive (JBool b) = (if b then ''true'' else ''false'')"
| "stringifyPrimitive v = []"

fun qs_field :: "string \<times> jsval \<Rightarrow> string list" where
  "qs_field (k, JArr vs) =
     map (\<lambda>v. qs_escape k @ ''='' @ qs_escape (stringifyPrimitive v)) vs"
| "qs_field (k, v) = [qs_escape k @ ''='' @ qs_escape (stringifyPrimitive v)]"

definition querystring_stringify :: "(string \<times> jsval) list \<Rightarrow> string" where
  "querystring_stringify obj = join_with ''&'' (concat (map qs_field obj))"

subsection \<open>JSON.parse and JSON.stringify\<close>

definition dquote :: char where
  "dquote = CHR 0x22"

definition backslash :: char where
  "backslash = CHR 0x5C"

definition is_ws :: "char \<Rightarrow> bool" where
  "is_ws c = (c = CHR '' '' \<or> c = CHR 0x09 \<or> c = CHR 0x0A \<or> c = CHR 0x0D)"

definition skip_ws :: "string \<Rightarrow> string" where
  "skip_ws cs = dropWhile is_ws cs"

text \<open>The characters of a string literal after its opening quote, and the rest of the
  text after its closing quote. A control character must be escaped.\<close>

definition hex_digit :: "char \<Rightarrow> nat option" where
  "hex_digit c =
     (if c \<in> set ''0123456789abcdef''
        then Some (length (takeWhile (\<lambda>d. d \<noteq> c) ''0123456789abcdef''))
      else if c \<in> set ''ABCDEF''
        then Some (10 + length (takeWhile (\<lambda>d. d \<noteq> c) ''ABCDEF''))
      else None)"

definition unescape :: "char \<Rightarrow> char option" where
  "unescape e =
     (if e = dquote then Some dquote
      else if e = backslash then Some backslash
      else if e = CHR ''/'' then Some CHR ''/''
      else if e = CHR ''b'' then Some (CHR 0x08)
      else if e = CHR ''f'' then Some (CHR 0x0C)
      else if e = CHR ''n'' then Some (CHR 0x0A)
      else if e = CHR ''r'' then Some (CHR 0x0D)
      else if e = CHR ''t'' then Some (CHR 0x09)
      else None)"

function parse_chars :: "string \<Rightarrow> string \<Rightarrow> (string \<times> string) option" where
  "parse_chars acc [] = None"
| "parse_chars acc (c # cs) =
     (if c = dquote then Some (acc, cs)
      else if c = backslash then
        (case cs of
           [] \<Rightarrow> None
         | e # cs1 \<Rightarrow>
             if e = CHR ''u'' then
               (case those (map hex_digit (take 4 cs1)) of
                  Some [h3, h2, h1, h0] \<Rightarrow>
                    if h3 = 0 \<and> h2 = 0 \<and> h1 < 8
                    then parse_chars (acc @ [char_of (16 * h1 + h0)]) (drop 4 cs1)
                    else None
                | _ \<Rightarrow> None)
             else
               (case unescape e of
                  None \<Rightarrow> None
                | Some ch \<Rightarrow> parse_chars (acc @ [ch]) cs1))
      else if (of_char c :: nat) < 32 then None
      else parse_chars (acc @ [c]) cs)"
  by pat_completeness auto
termination
  by (relation "measure (\<lambda>(acc, cs). length cs)") auto

definition parse_string_body :: "string \<Rightarrow> (string \<times> string) option" where
  "parse_string_body cs = parse_chars [] cs"

definition parse_digits :: "string \<Rightarrow> (int \<times> string) option" where
  "parse_digits cs =
     (let ds = takeWhile is_digit cs; rest = dropWhile is_digit cs
      in if ds = [] \<or> (hd ds = CHR ''0'' \<and> tl ds \<noteq> []) then None
         else if rest \<noteq> [] \<and> hd rest \<in> set ''.eE'' then None
         else if digits_val ds < 9007199254740992 then Some (digits_val ds, rest)
         else None)"

definition parse_number :: "string \<Rightarrow> (jsval \<times> string) option" where
  "parse_number cs =
     (case cs of
        [] \<Rightarrow> None
      | c # r \<Rightarrow>
          if c = CHR ''-'' then
            (case parse_digits r of None \<Rightarrow> None | Some (n, rest) \<Rightarrow> Some (JNum (- n), rest))
          else
            (case parse_digits cs of None \<Rightarrow> None | Some (n, rest) \<Rightarrow> Some (JNum n, rest)))"

definition parse_literal :: "string \<Rightarrow> (jsval \<times> string) option" where
  "parse_literal cs =
     (if take 4 cs = ''true'' then Some (JBool True, drop 4 cs)
      else if take 5 cs = ''false'' then Some (JBool False, drop 5 cs)
      else if take 4 cs = ''null'' then Some (JNull, drop 4 cs)
      else None)"

fun parse_value :: "nat \<Rightarrow> string \<Rightarrow> (jsval \<times> string) option"
  and parse_elements :: "nat \<Rightarrow> jsval list \<Rightarrow> string \<Rightarrow> (jsval list \<times> string) option"
  and parse_members :: "nat \<Rightarrow> (string \<times> jsval) list \<Rightarrow> string
    \<Rightarrow> ((string \<times> jsval) list \<times> string) option" where
  "parse_value 0 cs = None"
| "parse_value (Suc n) cs =
     (case skip_ws cs of
        [] \<Rightarrow> None
      | c # r \<Rightarrow>
          if c = CHR ''{'' then
            (case skip_ws r of
               [] \<Rightarrow> None
             | d # r' \<Rightarrow>
                 if d = CHR ''}'' then Some (JObj [], r')
                 else (case parse_members n [] (d # r') of
                         None \<Rightarrow> None
                       | Some (kv, r'') \<Rightarrow> Some (JObj kv, r'')))
          else if c = CHR ''['' then
            (case skip_ws r of
               [] \<Rightarrow> None
             | d # r' \<Rightarrow>
                 if d = CHR '']'' then Some (JArr [], r')
                 else (case parse_elements n [] (d # r') of
                         None \<Rightarrow> None
                       | Some (vs, r'') \<Rightarrow> Some (JArr vs, r'')))
          else if c = dquote then
            (case parse_string_body r of
               None \<Rightarrow> None
             | Some (str, r') \<Rightarrow> Some (JStr str, r'))
          else if c = CHR ''-'' \<or> is_digit c then parse_number (c # r)
          else parse_literal (c # r))"
| "parse_elements 0 acc cs = None"
| "parse_elements (Suc n) acc cs =
     (case parse_value n cs of
        None \<Rightarrow> None
      | Some (v, r) \<Rightarrow>
          (case skip_ws r of
             [] \<Rightarrow> None
           | d # r' \<Rightarrow>
               if d = CHR '','' then parse_elements n (acc @ [v]) r'
               else if d = CHR '']'' then Some (acc @ [v], r')
               else None))"
| "parse_members 0 acc cs = None"
| "parse_members (Suc n) acc cs =
     (case skip_ws cs of
        [] \<Rightarrow> None
      | q # r \<Rightarrow>
          if q \<noteq> dquote then None
          else
            (case parse_string_body r of
               None \<Rightarrow> None
             | Some (k, r1) \<Rightarrow>
                 (case skip_ws r1 of
                    [] \<Rightarrow> None
                  | c # r2 \<Rightarrow>
                      if c \<noteq> CHR '':'' then None
                      else
                        (case parse_value n r2 of
                           None \<Rightarrow> None
                         | Some (v, r3) \<Rightarrow>
                             (case skip_ws r3 of
                                [] \<Rightarrow> None
                              | d # r4 \<Rightarrow>
                                  if d = CHR '','' then parse_members n (AList.update k v acc) r4
                                  else if d = CHR ''}'' then Some (AList.update k v acc, r4)
                                  else None)))))"

definition json_parse :: "string \<Rightarrow> jsval option" where
  "json_parse str =
     (case parse_value (2 * length str + 2) str of
        None \<Rightarrow> None
      | Some (v, rest) \<Rightarrow> if skip_ws rest = [] then Some v else None)"

text \<open>\<^verbatim>\<open>JSON.stringify\<close>: an \<^verbatim>\<open>undefined\<close> array element is written \<^verbatim>\<open>null\<close>, an
  \<^verbatim>\<open>undefined\<close> property is left out, and \<^verbatim>\<open>undefined\<close> itself has no text. In a
  string the quote, the backslash and the control characters are escaped.\<close>

definition lower_hex :: "nat \<Rightarrow> char" where
  "lower_hex d = ''0123456789abcdef'' ! (d mod 16)"

definition json_escape :: "char \<Rightarrow> string" where
  "json_escape c =
     (if c = dquote then [backslash, dquote]
      else if c = backslash then [backslash, backslash]
      else if c = CHR 0x08 then [backslash, CHR ''b'']
      else if c = CHR 0x0C then [backslash, CHR ''f'']
      else if c = CHR 0x0A then [backslash, CHR ''n'']
      else if c = CHR 0x0D then [backslash, CHR ''r'']
      else if c = CHR 0x09 then [backslash, CHR ''t'']
      else if (of_char c :: nat) < 32
        then [backslash, CHR ''u'', CHR ''0'', CHR ''0'',
              lower_hex (of_char c div 16), lower_hex (of_char c)]
      else [c])"

definition json_quote :: "string \<Rightarrow> string" where
  "json_quote str = [dquote] @ concat (map json_escape str) @ [dquote]"

fun json_text :: "jsval \<Rightarrow> string" where
  "json_text JUndefined = ''null''"
| "json_text JNull = ''null''"
| "json_text (JBool b) = (if b then ''true'' else ''false'')"
| "json_text (JNum i) = dec_int i"
| "json_text (JStr str) = json_quote str"
| "json_text (JArr vs) = ''['' @ join_with '','' (map json_text vs) @ '']''"
| "json_text (JObj kv) =
     ''{'' @ join_with '',''
        (map (\<lambda>(k, v). json_quote k @ '':'' @ json_text v)
           (filter (\<lambda>(k, v). v \<noteq> JUndefined) kv)) @ ''}''"

definition json_stringify :: "jsval \<Rightarrow> string option" where
  "json_stringify v = (if v = JUndefined then None else Some (json_text v))"

subsection \<open>A transport that plays a script\<close>

text \<open>The world is the list of outcomes still to come and the requests handed to
  \<^verbatim>\<open>fetch\<close> so far; when the script is used up every further fetch throws.\<close>

type_synonym script_world = "outcome list \<times> request list"

fun script_fetch :: "script_world \<Rightarrow> request \<Rightarrow> outcome \<times> script_world" where
  "script_fetch ([], log) req = (TransportFailure, ([], log @ [req]))"
| "script_fetch (out # outs, log) req = (out, (outs, log @ [req]))"

definition script_env :: "script_world env" where
  "script_env =
     \<lparr> fetch = script_fetch, stringify = querystring_stringify,
       JSON_parse = json_parse, JSON_stringify = json_stringify \<rparr>"

section \<open>The Paginator as the specification words it\<close>

text \<open>
  The specification's algorithm for \<^verbatim>\<open>paginate\<close>: a first fetch with the caller's query;
  \<^verbatim>\<open>total_pages\<close> read once from the metadata that fetch produced; then, for each page
  index \<open>p\<close> from 2 to \<^verbatim>\<open>total_pages\<close>, a fetch with the caller's query in which \<^verbatim>\<open>page\<close> is
  \<open>p\<close>. It is compared with the source's \<^verbatim>\<open>paginate\<close> below.
\<close>

function later_pages :: "'w env \<Rightarrow> session \<Rightarrow> 'w \<Rightarrow> string \<Rightarrow> (string \<times> jsval) list
    \<Rightarrow> int \<Rightarrow> int \<Rightarrow> slot list \<times> 'w" where
  "later_pages E s w endpoint queries p lastp =
     (if p \<le> lastp then
        (case get_start E s w endpoint (AList.update ''page'' (JNum p) queries) of
           (t, w') \<Rightarrow>
             (case later_pages E s w' endpoint queries (p + 1) lastp of
                (ts, w'') \<Rightarrow> (Suspended t # ts, w'')))
      else ([], w))"
  by pat_completeness auto
termination
  by (relation "measure (\<lambda>(E, s, w, endpoint, queries, p, lastp). nat (lastp + 1 - p))") auto

declare later_pages.simps [simp del]

definition paginate_once :: "'w env \<Rightarrow> nat \<Rightarrow> session \<Rightarrow> 'w \<Rightarrow> string
    \<Rightarrow> (string \<times> jsval) list \<Rightarrow> (slot list result \<times> session \<times> 'w) option" where
  "paginate_once E n s w endpoint queries =
     (case get E n s w endpoint queries of
        None \<Rightarrow> None
      | Some (Inl e, s', w') \<Rightarrow> Some (Inl e, s', w')
      | Some (Inr d, s', w') \<Rightarrow>
          (case total_pages_of s' of
             Inl e \<Rightarrow> Some (Inl e, s', w')
           | Inr tot \<Rightarrow>
               (case js_toNumber tot of
                  None \<Rightarrow> Some (Inl Unmodelled, s', w')
                | Some total_pages \<Rightarrow>
                    (case later_pages E s' w' endpoint queries 2
                            (case total_pages of NaN \<Rightarrow> 1 | Number t \<Rightarrow> t) of
                       (ts, w'') \<Rightarrow> Some (Inr (Fulfilled d # ts), s', w'')))))"

section \<open>A remote store\<close>








text \<open>The successive pages of at most \<open>limit\<close> items that such a store serves while each
  page served is deleted before the next fetch.\<close>

function pages_of :: "nat \<Rightarrow> 'a list \<Rightarrow> 'a list list" where
  "pages_of limit xs =
     (if limit = 0 \<or> xs = [] then [] else take limit xs # pages_of limit (drop limit xs))"
  by pat_completeness auto
termination
  by (relation "measure (\<lambda>(limit, xs). length xs)") auto

declare pages_of.simps [simp del]

section \<open>Observations on results\<close>




text \<open>The data a response body yields through \<^verbatim>\<open>readResponse\<close>, whatever the session.\<close>

definition read_data :: "'w env \<Rightarrow> string \<Rightarrow> jsval result" where
  "read_data E body = fst (readResponse E (constructor [] [] False) body)"

text \<open>What an entry of the input of \<^verbatim>\<open>Promise.all\<close> or \<^verbatim>\<open>BlueBirdProm.map\<close> is fulfilled
  with when it is a value, or a suspended call whose fetch has a response that settles
  it without error.\<close>

fun settles_to :: "'w env \<Rightarrow> slot \<Rightarrow> jsval \<Rightarrow> bool" where
  "settles_to E (Fulfilled v') v = (v = v')"
| "settles_to E (Suspended (GetCall endpoint (Response status statusText body))) v =
     (ok status \<and> read_data E body = Inr v)"
| "settles_to E (Suspended (DeleteCall endpoint (Response status statusText body) own awaiting)) v =
     (ok status \<and> awaiting = 0 \<and> v = JUndefined)"
| "settles_to E sl v = False"

section \<open>Facts about the concrete collaborators\<close>

lemma script_fetch_env [simp]: "fetch script_env = script_fetch"
  by (simp add: script_env_def)

lemma qs_empty: "stringify script_env [] = []"
  by (simp add: script_env_def querystring_stringify_def)

lemma qs_sku: "stringify script_env [(''sku'', JStr ''10205'')] = ''sku=10205''"
  unfolding script_env_def by code_simp

lemma qs_page:
  "stringify script_env [(''page'', JNum 2)] = ''page=2''"
  "stringify script_env [(''page'', JNum 3)] = ''page=3''"
  "stringify script_env [(''page'', JNum 4)] = ''page=4''"
  "stringify script_env [(''page'', JNum 5)] = ''page=5''"
  unfolding script_env_def by code_simp+

lemma parse_empty_object: \<open>JSON_parse script_env ''{}'' = Some (JObj [])\<close>
  by code_simp

lemma parse_one_page:
  \<open>JSON_parse script_env ''{"data":[{"id":7}],"meta":{"pagination":{"total_pages":1}}}''
     = Some (JObj [(''data'', JArr [JObj [(''id'', JNum 7)]]),
                   (''meta'', JObj [(''pagination'', JObj [(''total_pages'', JNum 1)])])])\<close>
  by code_simp

lemma parse_truncated: \<open>JSON_parse script_env ''{"data":'' = None\<close>
  by code_simp

lemma message_404: "http_message 404 ''Not Found'' ''not found'' = ''404 - Not Found: not found''"
  by code_simp


lemma parse_five_pages:
  \<open>JSON_parse script_env ''{"data":[],"meta":{"pagination":{"total_pages":5}}}''
     = Some (JObj [(''data'', JArr []),
                   (''meta'', JObj [(''pagination'', JObj [(''total_pages'', JNum 5)])])])\<close>
  by code_simp

lemma parse_page_1_of_2:
  \<open>JSON_parse script_env ''{"data":[{"id":1},{"id":2}],"meta":{"pagination":{"total_pages":2}}}''
     = Some (JObj [(''data'', JArr [JObj [(''id'', JNum 1)], JObj [(''id'', JNum 2)]]),
                   (''meta'', JObj [(''pagination'', JObj [(''total_pages'', JNum 2)])])])\<close>
  by code_simp

lemma parse_page_2_of_2:
  \<open>JSON_parse script_env ''{"data":[{"id":3}],"meta":{"pagination":{"total_pages":2}}}''
     = Some (JObj [(''data'', JArr [JObj [(''id'', JNum 3)]]),
                   (''meta'', JObj [(''pagination'', JObj [(''total_pages'', JNum 2)])])])\<close>
  by code_simp

section \<open>The envelope reader\<close>

text \<open>
  Claim C6. On a 2xx response \<^verbatim>\<open>get\<close> returns what \<^verbatim>\<open>readResponse\<close> makes of the body. An
  empty body gives no value (\<^verbatim>\<open>undefined\<close>) and leaves the session as it is. A body that
  is not empty is parsed: when \<^verbatim>\<open>JSON.parse\<close> throws, the call fails with that
  \<^verbatim>\<open>SyntaxError\<close>; when it yields an object, the call returns the object's \<^verbatim>\<open>data\<close> and
  the session's \<^verbatim>\<open>meta\<close> becomes the object's \<^verbatim>\<open>meta\<close>, whatever it held before.
\<close>

theorem readResponse_envelope:
  "readResponse E s [] = (Inr JUndefined, s)
   \<and> (result \<noteq> [] \<longrightarrow> JSON_parse E result = None \<longrightarrow>
        readResponse E s result = (Inl SyntaxError, s))
   \<and> (result \<noteq> [] \<longrightarrow> JSON_parse E result = Some (JObj kv) \<longrightarrow>
        readResponse E s result =
          (Inr (case map_of kv ''data'' of None \<Rightarrow> JUndefined | Some d \<Rightarrow> d),
           s\<lparr>meta := (case map_of kv ''meta'' of None \<Rightarrow> JUndefined | Some m \<Rightarrow> m)\<rparr>))
   \<and> (ok status \<longrightarrow>
        fetch E w (get_request s (endpoint @ ''?'' @ stringify E queries))
          = (Response status statusText result, w') \<longrightarrow>
        get E (Suc n) s w endpoint queries
          = Some (fst (readResponse E s result), snd (readResponse E s result), w'))"
  by (simp add: readResponse_def split: prod.splits)

theorem readResponse_envelope_witness:
  \<open>readResponse script_env (constructor ''h'' ''t'' False)
      ''{"data":[{"id":7}],"meta":{"pagination":{"total_pages":1}}}''
    = (Inr (JArr [JObj [(''id'', JNum 7)]]),
       (constructor ''h'' ''t'' False)
         \<lparr>meta := JObj [(''pagination'', JObj [(''total_pages'', JNum 1)])]\<rparr>)
   \<and> readResponse script_env (constructor ''h'' ''t'' False) ''{"data":''
    = (Inl SyntaxError, constructor ''h'' ''t'' False)\<close>
  using readResponse_envelope[of script_env "constructor ''h'' ''t'' False"
          \<open>''{"data":[{"id":7}],"meta":{"pagination":{"total_pages":1}}}''\<close>
          "[(''data'', JArr [JObj [(''id'', JNum 7)]]),
            (''meta'', JObj [(''pagination'', JObj [(''total_pages'', JNum 1)])])]"]
        readResponse_envelope[of script_env "constructor ''h'' ''t'' False" \<open>''{"data":''\<close>]
        parse_one_page parse_truncated
  by simp

text \<open>
  Claim C9, as stated, fails. A response with an empty body and a response with the body
  \<^verbatim>\<open>{}\<close> both make \<^verbatim>\<open>get\<close> return \<^verbatim>\<open>undefined\<close>; the second also assigns \<^verbatim>\<open>undefined\<close> to the
  session's \<^verbatim>\<open>meta\<close>. A session that has received the body \<^verbatim>\<open>{}\<close> once therefore holds
  \<^verbatim>\<open>undefined\<close>, and from then on the two responses leave the same value and the same
  session.
\<close>

theorem empty_body_vs_empty_object_counterexample:
  \<open>get script_env 1 (constructor ''h'' ''t'' False) ([Response 200 ''OK'' ''{}''], []) ''v3/x'' []
     = Some (Inr JUndefined, (constructor ''h'' ''t'' False)\<lparr>meta := JUndefined\<rparr>,
             ([], [get_request (constructor ''h'' ''t'' False) ''v3/x?'']))
   \<and> get script_env 1 ((constructor ''h'' ''t'' False)\<lparr>meta := JUndefined\<rparr>)
         ([Response 200 ''OK'' ''''], []) ''v3/x'' []
     = get script_env 1 ((constructor ''h'' ''t'' False)\<lparr>meta := JUndefined\<rparr>)
         ([Response 200 ''OK'' ''{}''], []) ''v3/x'' []\<close>
  using parse_empty_object
  by (simp add: qs_empty ok_def readResponse_def get_request_def)

text \<open>
  Claim C9, amended. With a \<^verbatim>\<open>JSON.parse\<close> that reads \<^verbatim>\<open>{}\<close> as the empty object, both
  bodies give the value \<^verbatim>\<open>undefined\<close>; the empty body leaves the session unchanged and the
  body \<^verbatim>\<open>{}\<close> sets its \<^verbatim>\<open>meta\<close> to \<^verbatim>\<open>undefined\<close>. The two cases differ, in the resulting
  session only, exactly when the session's \<^verbatim>\<open>meta\<close> was not \<^verbatim>\<open>undefined\<close> already.
\<close>

theorem empty_body_vs_empty_object:
  assumes "JSON_parse E ''{}'' = Some (JObj [])"
  shows "readResponse E s [] = (Inr JUndefined, s)
       \<and> readResponse E s ''{}'' = (Inr JUndefined, s\<lparr>meta := JUndefined\<rparr>)
       \<and> (readResponse E s [] = readResponse E s ''{}'') = (meta s = JUndefined)"
proof -
  have a: "readResponse E s [] = (Inr JUndefined, s)"
    by (simp add: readResponse_def)
  have b: "readResponse E s ''{}'' = (Inr JUndefined, s\<lparr>meta := JUndefined\<rparr>)"
    using assms by (simp add: readResponse_def)
  have c: "(s = s\<lparr>meta := JUndefined\<rparr>) = (meta s = JUndefined)"
    by (cases s) auto
  show ?thesis using a b c by simp
qed

theorem empty_body_vs_empty_object_witness:
  \<open>readResponse script_env (constructor ''h'' ''t'' False) [] \<noteq>
   readResponse script_env (constructor ''h'' ''t'' False) ''{}''\<close>
  using empty_body_vs_empty_object[OF parse_empty_object, of "constructor ''h'' ''t'' False"]
  by (simp add: constructor_def)

section \<open>Transport failures\<close>

text \<open>
  Claim C10. When the first fetch of a \<^verbatim>\<open>delete\<close> call throws, the call awaits the retried
  \<^verbatim>\<open>delete\<close> and then reads \<^verbatim>\<open>response.ok\<close> of its own unassigned \<^verbatim>\<open>response\<close>: if the
  retried call returns, the original call throws a \<^verbatim>\<open>TypeError\<close>, in particular when the
  retried request is answered with a 2xx status; and in no case does the original call
  return normally.
\<close>

theorem delete_retry_falls_through:
  assumes "fetch E w (delete_request s (endpoint @ ''?'' @ stringify E queries))
             = (TransportFailure, w1)"
  shows "(delete E n s w1 (endpoint @ ''?'' @ stringify E queries) queries = Some (Inr v, w2)
            \<longrightarrow> delete E (Suc n) s w endpoint queries = Some (Inl TypeError, w2))
       \<and> (fetch E w1 (delete_request s
               (endpoint @ ''?'' @ stringify E queries @ ''?'' @ stringify E queries))
             = (Response status statusText body, w2) \<longrightarrow> ok status
            \<longrightarrow> delete E (Suc (Suc n)) s w endpoint queries = Some (Inl TypeError, w2))
       \<and> delete E m s w endpoint queries \<noteq> Some (Inr v, w3)"
proof -
  have c: "delete E m s w endpoint queries \<noteq> Some (Inr v, w3)"
    using assms by (cases m) (auto split: option.splits sum.splits prod.splits)
  show ?thesis using assms c by simp
qed

theorem delete_retry_falls_through_witness:
  "delete script_env 2 (constructor ''h'' ''t'' False)
     ([TransportFailure, Response 204 ''No Content'' ''''], []) ''v3/catalog/products/7'' []
   = Some (Inl TypeError,
       ([], [delete_request (constructor ''h'' ''t'' False) ''v3/catalog/products/7?'',
             delete_request (constructor ''h'' ''t'' False) ''v3/catalog/products/7??'']))"
  using delete_retry_falls_through[where E=script_env
     and w="([TransportFailure, Response 204 ''No Content'' ''''], [])"
     and s="constructor ''h'' ''t'' False" and endpoint="''v3/catalog/products/7''"
     and queries="[]"
     and ?w1.0="([Response 204 ''No Content'' ''''],
                 [delete_request (constructor ''h'' ''t'' False) ''v3/catalog/products/7?''])"
     and status=204 and statusText="''No Content''" and body="[]" and n=0
     and ?w2.0="([], [delete_request (constructor ''h'' ''t'' False) ''v3/catalog/products/7?'',
             delete_request (constructor ''h'' ''t'' False) ''v3/catalog/products/7??''])"]
  by (simp add: qs_empty ok_def numeral_2_eq_2)

text \<open>
  Claim C3 on the code: a \<^verbatim>\<open>get\<close> for \<^verbatim>\<open>v3/catalog/products\<close> with the query
  \<^verbatim>\<open>{sku: '10205'}\<close> whose first fetch throws. The retried call is given the local
  \<^verbatim>\<open>endpoint\<close>, to which the query string has been appended already, and appends it
  again: the second request goes to another URL than the first.
\<close>

theorem get_retry_changes_url:
  "get script_env 2 (constructor ''h'' ''t'' False)
     ([TransportFailure, Response 200 ''OK'' ''''], [])
     ''v3/catalog/products'' [(''sku'', JStr ''10205'')]
   = Some (Inr JUndefined, constructor ''h'' ''t'' False,
       ([], [get_request (constructor ''h'' ''t'' False) ''v3/catalog/products?sku=10205'',
             get_request (constructor ''h'' ''t'' False)
               ''v3/catalog/products?sku=10205?sku=10205'']))"
  by (simp add: numeral_2_eq_2 qs_sku ok_def readResponse_def)


section \<open>Responses that are not ok\<close>

lemma not_all_fulfilled:
  "i < length slots \<Longrightarrow> slots ! i = Suspended t \<Longrightarrow> \<not> list_all is_Fulfilled slots"
  by (metis is_Fulfilled.simps(3) list_all_length)

lemma settle_never_fulfils:
  "i < length slots \<Longrightarrow> slots ! i = Suspended (GetCall ep (Response status statusText body))
   \<Longrightarrow> \<not> ok status \<Longrightarrow> settle E q sched s w slots \<noteq> Some (Inr r, s', w')"
proof (induction sched arbitrary: s w slots)
  case Nil
  then show ?case using not_all_fulfilled[of i slots] by simp
next
  case (Cons j sched)
  have nf: "\<not> list_all is_Fulfilled slots"
    using Cons.prems not_all_fulfilled[of i slots] by simp
  show ?case
  proof (cases "j < length slots")
    case False
    then show ?thesis using nf Cons by simp
  next
    case True
    show ?thesis
    proof (cases "slots ! j")
      case (Fulfilled v)
      then show ?thesis using nf True Cons by simp
    next
      case (Rejected e)
      then show ?thesis using nf True Cons by simp
    next
      case (Suspended t)
      obtain sl s1 w1 where res: "resume E s w q t = (sl, s1, w1)"
        by (cases "resume E s w q t") auto
      show ?thesis
      proof (cases "j = i")
        case True
        then have "t = GetCall ep (Response status statusText body)"
          using Suspended Cons.prems by simp
        then have "sl = Rejected (Error (http_message status statusText body))"
          using res Cons.prems by simp
        then show ?thesis using nf \<open>j < length slots\<close> Suspended res by simp
      next
        case False
        then have keep: "\<And>x. i < length (slots[j := x]) \<and>
            (slots[j := x]) ! i = Suspended (GetCall ep (Response status statusText body))"
          using Cons.prems by simp
        show ?thesis
        proof (cases sl)
          case (Fulfilled v)
          then show ?thesis
            using nf \<open>j < length slots\<close> Suspended res keep Cons.IH Cons.prems(3) by simp
        next
          case (Rejected e)
          then show ?thesis using nf \<open>j < length slots\<close> Suspended res by simp
        next
          case (Suspended t')
          then show ?thesis
            using nf \<open>j < length slots\<close> \<open>slots ! j = Suspended t\<close> res keep Cons.IH
              Cons.prems(3) by simp
        qed
      qed
    qed
  qed
qed

lemma get_ends_with_response:
  "get E n s w endpoint queries = Some (r, s2, w2) \<Longrightarrow>
     \<exists>w0 ep status statusText body.
        fetch E w0 (get_request s ep) = (Response status statusText body, w2)
        \<and> (\<not> ok status \<longrightarrow> r = Inl (Error (http_message status statusText body)) \<and> s2 = s)"
proof (induction n arbitrary: w endpoint)
  case 0
  then show ?case by simp
next
  case (Suc n)
  let ?ep = "endpoint @ ''?'' @ stringify E queries"
  obtain out w1 where f: "fetch E w (get_request s ?ep) = (out, w1)"
    by (cases "fetch E w (get_request s ?ep)") auto
  show ?case
  proof (cases out)
    case TransportFailure
    then have "get E n s w1 ?ep queries = Some (r, s2, w2)" using Suc.prems f by simp
    then show ?thesis by (rule Suc.IH)
  next
    case (Response status statusText body)
    then have "w1 = w2 \<and> (\<not> ok status \<longrightarrow> r = Inl (Error (http_message status statusText body)) \<and> s2 = s)"
      using Suc.prems f by (auto split: if_splits prod.splits)
    then show ?thesis using f Response by blast
  qed
qed

lemma post_ends_with_response:
  "post E n s w endpoint payload = Some (r, s2, w2) \<Longrightarrow>
     \<exists>w0 status statusText body.
        fetch E w0 (post_request E s endpoint payload) = (Response status statusText body, w2)
        \<and> (\<not> ok status \<longrightarrow> r = Inl (Error (http_message status statusText body)) \<and> s2 = s)"
proof (induction n arbitrary: w)
  case 0
  then show ?case by simp
next
  case (Suc n)
  obtain out w1 where f: "fetch E w (post_request E s endpoint payload) = (out, w1)"
    by (cases "fetch E w (post_request E s endpoint payload)") auto
  show ?case
  proof (cases out)
    case TransportFailure
    then have "post E n s w1 endpoint payload = Some (r, s2, w2)" using Suc.prems f by simp
    then show ?thesis by (rule Suc.IH)
  next
    case (Response status statusText body)
    then have "w1 = w2 \<and> (\<not> ok status \<longrightarrow> r = Inl (Error (http_message status statusText body)) \<and> s2 = s)"
      using Suc.prems f by (auto split: if_splits prod.splits)
    then show ?thesis using f Response by blast
  qed
qed

lemma put_ends_with_response:
  "put E n s w endpoint payload = Some (r, s2, w2) \<Longrightarrow>
     \<exists>w0 status statusText body.
        fetch E w0 (put_request E s endpoint payload) = (Response status statusText body, w2)
        \<and> (\<not> ok status \<longrightarrow> r = Inl (Error (http_message status statusText body)) \<and> s2 = s)"
proof (induction n arbitrary: w)
  case 0
  then show ?case by simp
next
  case (Suc n)
  obtain out w1 where f: "fetch E w (put_request E s endpoint payload) = (out, w1)"
    by (cases "fetch E w (put_request E s endpoint payload)") auto
  show ?case
  proof (cases out)
    case TransportFailure
    then have "put E n s w1 endpoint payload = Some (r, s2, w2)" using Suc.prems f by simp
    then show ?thesis by (rule Suc.IH)
  next
    case (Response status statusText body)
    then have "w1 = w2 \<and> (\<not> ok status \<longrightarrow> r = Inl (Error (http_message status statusText body)) \<and> s2 = s)"
      using Suc.prems f by (auto split: if_splits prod.splits)
    then show ?thesis using f Response by blast
  qed
qed

lemma delete_ends_with_response:
  "delete E n s w endpoint queries = Some (r, w2) \<Longrightarrow>
     \<exists>w0 ep status statusText body.
        fetch E w0 (delete_request s ep) = (Response status statusText body, w2)
        \<and> (\<not> ok status \<longrightarrow> r = Inl (Error (http_message status statusText body)))
        \<and> (ok status \<longrightarrow> r = Inr JUndefined \<or> r = Inl TypeError)"
proof (induction n arbitrary: w endpoint r)
  case 0
  then show ?case by simp
next
  case (Suc n)
  let ?ep = "endpoint @ ''?'' @ stringify E queries"
  obtain out w1 where f: "fetch E w (delete_request s ?ep) = (out, w1)"
    by (cases "fetch E w (delete_request s ?ep)") auto
  show ?case
  proof (cases out)
    case TransportFailure
    then obtain r1 where inner: "delete E n s w1 ?ep queries = Some (r1, w2)"
      and out: "r = (case r1 of Inl e \<Rightarrow> Inl e | Inr v \<Rightarrow> Inl TypeError)"
      using Suc.prems f by (auto split: option.splits sum.splits prod.splits)
    from Suc.IH[OF inner] obtain w0 ep status statusText body where
      fr: "fetch E w0 (delete_request s ep) = (Response status statusText body, w2)"
      and bad: "\<not> ok status \<longrightarrow> r1 = Inl (Error (http_message status statusText body))"
      and good: "ok status \<longrightarrow> r1 = Inr JUndefined \<or> r1 = Inl TypeError"
      by blast
    have "(\<not> ok status \<longrightarrow> r = Inl (Error (http_message status statusText body)))
        \<and> (ok status \<longrightarrow> r = Inr JUndefined \<or> r = Inl TypeError)"
      using bad good out by auto
    then show ?thesis using fr by blast
  next
    case (Response status statusText body)
    then have "w1 = w2 \<and> (\<not> ok status \<longrightarrow> r = Inl (Error (http_message status statusText body)))
        \<and> (ok status \<longrightarrow> r = Inr JUndefined \<or> r = Inl TypeError)"
      using Suc.prems f by (auto split: if_splits)
    then show ?thesis using f Response by blast
  qed
qed


lemma settle_rejects_when_resumed:
  "i < length slots \<Longrightarrow> slots ! i = Suspended (GetCall ep (Response status statusText body))
   \<Longrightarrow> \<not> ok status \<Longrightarrow> i \<in> set sched
   \<Longrightarrow> \<exists>e s2 w2. settle E q sched s w slots = Some (Inl e, s2, w2)"
proof (induction sched arbitrary: s w slots)
  case Nil
  then show ?case by simp
next
  case (Cons j sched)
  have nf: "\<not> list_all is_Fulfilled slots"
    using Cons.prems not_all_fulfilled[of i slots] by simp
  show ?case
  proof (cases "j = i")
    case True
    then show ?thesis using nf Cons.prems by simp
  next
    case ne: False
    then have mem: "i \<in> set sched" using Cons.prems by simp
    show ?thesis
    proof (cases "j < length slots")
      case False
      then show ?thesis using nf Cons.IH[OF Cons.prems(1,2,3) mem] by simp
    next
      case True
      show ?thesis
      proof (cases "slots ! j")
        case (Fulfilled v)
        then show ?thesis using nf True Cons.IH[OF Cons.prems(1,2,3) mem] by simp
      next
        case (Rejected e)
        then show ?thesis using nf True Cons.IH[OF Cons.prems(1,2,3) mem] by simp
      next
        case (Suspended t)
        obtain sl s1 w1 where res: "resume E s w q t = (sl, s1, w1)"
          by (cases "resume E s w q t") auto
        have keep: "\<And>x. i < length (slots[j := x])"
          "\<And>x. (slots[j := x]) ! i = Suspended (GetCall ep (Response status statusText body))"
          using Cons.prems ne by simp_all
        show ?thesis
        proof (cases sl)
          case (Fulfilled v)
          then show ?thesis
            using nf True Suspended res Cons.IH[OF keep(1) keep(2) Cons.prems(3) mem] by simp
        next
          case (Rejected e)
          then show ?thesis using nf True Suspended res by simp
        next
          case sus: (Suspended t')
          then show ?thesis
            using nf True Suspended res Cons.IH[OF keep(1) keep(2) Cons.prems(3) mem] by simp
        qed
      qed
    qed
  qed
qed

lemma paginate_page_404:
  \<open>paginate script_env 1 (constructor ''h'' ''t'' False)
     ([Response 200 ''OK'' ''{"data":[{"id":1},{"id":2}],"meta":{"pagination":{"total_pages":2}}}'',
       Response 404 ''Not Found'' ''not found''], [])
     ''v3/catalog/products'' []
   = Some (Inr [Fulfilled (JArr [JObj [(''id'', JNum 1)], JObj [(''id'', JNum 2)]]),
                Suspended (GetCall ''v3/catalog/products?page=2''
                  (Response 404 ''Not Found'' ''not found''))],
           (constructor ''h'' ''t'' False)
             \<lparr>meta := JObj [(''pagination'', JObj [(''total_pages'', JNum 2)])]\<rparr>,
           ([], [get_request (constructor ''h'' ''t'' False) ''v3/catalog/products?'',
                 get_request (constructor ''h'' ''t'' False) ''v3/catalog/products?page=2'']),
           [(''page'', JNum 3)])\<close>
  using parse_page_1_of_2
  by (simp add: paginate_def paginate_rec.simps total_pages_of_def js_less_def safe_integer_def
      get_start_def Let_def qs_empty qs_page ok_def readResponse_def get_request_def
      constructor_def)

text \<open>
  Claim C4. A response whose status is not 2xx ends the call that receives it: \<^verbatim>\<open>get\<close>,
  \<^verbatim>\<open>post\<close>, \<^verbatim>\<open>put\<close> and \<^verbatim>\<open>delete\<close> fail with the error whose message is the status, the
  status text and the body text, after that one fetch (the world is the one the fetch
  left) and with the session unchanged. \<^verbatim>\<open>getAll\<close> fails with the same error when the
  response is that of its first page. When it is the response of a later page, that is of
  a call in the array \<^verbatim>\<open>paginate\<close> returned: \<^verbatim>\<open>getAll\<close> fails with this error, without
  another fetch, when that call is the first to be resumed; it fails, with this error or
  with that of a call resumed before, under every completion order in which the call is
  resumed; and under no completion order does it return data. After any number of retries
  too, a call that settles does so on the receipt of a response, in the world that fetch
  left, and with that response's error when its status is not 2xx.
\<close>

theorem non_2xx_fails_terminally:
  assumes "\<not> ok status"
  shows
   "(fetch E w (get_request s (endpoint @ ''?'' @ stringify E queries))
        = (Response status statusText body, w') \<longrightarrow>
      get E (Suc n) s w endpoint queries
        = Some (Inl (Error (http_message status statusText body)), s, w')
      \<and> getAll E (Suc n) sched s w endpoint queries
        = Some (Inl (Error (http_message status statusText body)), s, w', queries))
    \<and> (fetch E w (post_request E s endpoint payload) = (Response status statusText body, w') \<longrightarrow>
      post E (Suc n) s w endpoint payload
        = Some (Inl (Error (http_message status statusText body)), s, w'))
    \<and> (fetch E w (put_request E s endpoint payload) = (Response status statusText body, w') \<longrightarrow>
      put E (Suc n) s w endpoint payload
        = Some (Inl (Error (http_message status statusText body)), s, w'))
    \<and> (fetch E w (delete_request s (endpoint @ ''?'' @ stringify E queries))
        = (Response status statusText body, w') \<longrightarrow>
      delete E (Suc n) s w endpoint queries
        = Some (Inl (Error (http_message status statusText body)), w'))
    \<and> (paginate E m s w endpoint queries = Some (Inr input, s1, w1, q1) \<longrightarrow>
        i < length input \<longrightarrow>
        input ! i = Suspended (GetCall ep (Response status statusText body)) \<longrightarrow>
      getAll E m (i # sched) s w endpoint queries
        = Some (Inl (Error (http_message status statusText body)), s1, w1, q1)
      \<and> (i \<in> set sched \<longrightarrow>
           (\<exists>e s3 w3. getAll E m sched s w endpoint queries = Some (Inl e, s3, w3, q1)))
      \<and> getAll E m sched s w endpoint queries \<noteq> Some (Inr pages, s', w'', q'))
    \<and> (get E m s w endpoint queries = Some (r, s2, w2) \<longrightarrow>
        (\<exists>w0 ep st stt b. fetch E w0 (get_request s ep) = (Response st stt b, w2)
           \<and> (\<not> ok st \<longrightarrow> r = Inl (Error (http_message st stt b)) \<and> s2 = s)))
    \<and> (post E m s w endpoint payload = Some (r, s2, w2) \<longrightarrow>
        (\<exists>w0 st stt b. fetch E w0 (post_request E s endpoint payload) = (Response st stt b, w2)
           \<and> (\<not> ok st \<longrightarrow> r = Inl (Error (http_message st stt b)) \<and> s2 = s)))
    \<and> (put E m s w endpoint payload = Some (r, s2, w2) \<longrightarrow>
        (\<exists>w0 st stt b. fetch E w0 (put_request E s endpoint payload) = (Response st stt b, w2)
           \<and> (\<not> ok st \<longrightarrow> r = Inl (Error (http_message st stt b)) \<and> s2 = s)))
    \<and> (delete E m s w endpoint queries = Some (r, w2) \<longrightarrow>
        (\<exists>w0 ep st stt b. fetch E w0 (delete_request s ep) = (Response st stt b, w2)
           \<and> (\<not> ok st \<longrightarrow> r = Inl (Error (http_message st stt b)))))
    \<and> sublist (dec_nat status) (http_message status statusText body)
    \<and> sublist statusText (http_message status statusText body)
    \<and> sublist body (http_message status statusText body)"
proof -
  have eg: "get E m s w endpoint queries = Some (r, s2, w2) \<Longrightarrow>
        (\<exists>w0 ep st stt b. fetch E w0 (get_request s ep) = (Response st stt b, w2)
           \<and> (\<not> ok st \<longrightarrow> r = Inl (Error (http_message st stt b)) \<and> s2 = s))"
    by (rule get_ends_with_response)
  have epo: "post E m s w endpoint payload = Some (r, s2, w2) \<Longrightarrow>
        (\<exists>w0 st stt b. fetch E w0 (post_request E s endpoint payload) = (Response st stt b, w2)
           \<and> (\<not> ok st \<longrightarrow> r = Inl (Error (http_message st stt b)) \<and> s2 = s))"
    by (rule post_ends_with_response)
  have epu: "put E m s w endpoint payload = Some (r, s2, w2) \<Longrightarrow>
        (\<exists>w0 st stt b. fetch E w0 (put_request E s endpoint payload) = (Response st stt b, w2)
           \<and> (\<not> ok st \<longrightarrow> r = Inl (Error (http_message st stt b)) \<and> s2 = s))"
    by (rule put_ends_with_response)
  have ed: "delete E m s w endpoint queries = Some (r, w2) \<Longrightarrow>
        (\<exists>w0 ep st stt b. fetch E w0 (delete_request s ep) = (Response st stt b, w2)
           \<and> (\<not> ok st \<longrightarrow> r = Inl (Error (http_message st stt b))))"
    using delete_ends_with_response[of E m s w endpoint queries r w2] by blast
  have g: "fetch E w (get_request s (endpoint @ ''?'' @ stringify E queries))
        = (Response status statusText body, w') \<Longrightarrow>
      get E (Suc n) s w endpoint queries
        = Some (Inl (Error (http_message status statusText body)), s, w')"
    using assms by simp
  have ga: "fetch E w (get_request s (endpoint @ ''?'' @ stringify E queries))
        = (Response status statusText body, w') \<Longrightarrow>
      getAll E (Suc n) sched s w endpoint queries
        = Some (Inl (Error (http_message status statusText body)), s, w', queries)"
    using g by (simp add: getAll_def paginate_def del: get.simps)
  have po: "fetch E w (post_request E s endpoint payload)
        = (Response status statusText body, w') \<Longrightarrow>
      post E (Suc n) s w endpoint payload
        = Some (Inl (Error (http_message status statusText body)), s, w')"
    using assms by simp
  have pu: "fetch E w (put_request E s endpoint payload)
        = (Response status statusText body, w') \<Longrightarrow>
      put E (Suc n) s w endpoint payload
        = Some (Inl (Error (http_message status statusText body)), s, w')"
    using assms by simp
  have de: "fetch E w (delete_request s (endpoint @ ''?'' @ stringify E queries))
        = (Response status statusText body, w') \<Longrightarrow>
      delete E (Suc n) s w endpoint queries
        = Some (Inl (Error (http_message status statusText body)), w')"
    using assms by simp
  have later: "getAll E m (i # sched) s w endpoint queries
        = Some (Inl (Error (http_message status statusText body)), s1, w1, q1)
      \<and> (i \<in> set sched \<longrightarrow>
           (\<exists>e s3 w3. getAll E m sched s w endpoint queries = Some (Inl e, s3, w3, q1)))
      \<and> getAll E m sched s w endpoint queries \<noteq> Some (Inr pages, s', w'', q')"
    if pg: "paginate E m s w endpoint queries = Some (Inr input, s1, w1, q1)"
      and il: "i < length input"
      and ii: "input ! i = Suspended (GetCall ep (Response status statusText body))"
  proof -
    have se: "settle E q1 (i # sched) s1 w1 input
        = Some (Inl (Error (http_message status statusText body)), s1, w1)"
      using assms il ii not_all_fulfilled[of i input] by simp
    have first: "getAll E m (i # sched) s w endpoint queries
        = Some (Inl (Error (http_message status statusText body)), s1, w1, q1)"
      unfolding getAll_def BlueBirdProm_map_def pg using se by simp
    have sn: "\<And>ps sx wx. settle E q1 sched s1 w1 input \<noteq> Some (Inr ps, sx, wx)"
      by (rule settle_never_fulfils[OF il ii assms])
    have never: "getAll E m sched s w endpoint queries \<noteq> Some (Inr pages, s', w'', q')"
      unfolding getAll_def BlueBirdProm_map_def pg using sn
      by (auto split: option.splits sum.splits)
    have resumed: "\<exists>e s3 w3. getAll E m sched s w endpoint queries = Some (Inl e, s3, w3, q1)"
      if mem: "i \<in> set sched"
    proof -
      obtain e s3 w3 where "settle E q1 sched s1 w1 input = Some (Inl e, s3, w3)"
        using settle_rejects_when_resumed[OF il ii assms mem, where E=E and q=q1 and s=s1 and w=w1]
        by blast
      then show ?thesis unfolding getAll_def BlueBirdProm_map_def pg by simp
    qed
    show ?thesis using first never resumed by blast
  qed
  have su: "sublist (dec_nat status) (http_message status statusText body)
   \<and> sublist statusText (http_message status statusText body)
   \<and> sublist body (http_message status statusText body)"
    unfolding http_message_def
    by (metis sublist_appendI sublist_order.order_refl append.assoc append_Nil2
        sublist_append_rightI sublist_append_leftI)
  show ?thesis using g ga po pu de later eg epo epu ed su by blast
qed

theorem non_2xx_fails_terminally_witness:
  \<open>get script_env 1 (constructor ''h'' ''t'' False)
     ([Response 404 ''Not Found'' ''not found''], []) ''v3/catalog/products/9'' []
   = Some (Inl (Error ''404 - Not Found: not found''), constructor ''h'' ''t'' False,
       ([], [get_request (constructor ''h'' ''t'' False) ''v3/catalog/products/9?'']))
   \<and> getAll script_env 1 [] (constructor ''h'' ''t'' False)
     ([Response 404 ''Not Found'' ''not found''], []) ''v3/catalog/products/9'' []
   = Some (Inl (Error ''404 - Not Found: not found''), constructor ''h'' ''t'' False,
       ([], [get_request (constructor ''h'' ''t'' False) ''v3/catalog/products/9?'']), [])
   \<and> getAll script_env 1 [1] (constructor ''h'' ''t'' False)
     ([Response 200 ''OK'' ''{"data":[{"id":1},{"id":2}],"meta":{"pagination":{"total_pages":2}}}'',
       Response 404 ''Not Found'' ''not found''], [])
     ''v3/catalog/products'' []
   = Some (Inl (Error ''404 - Not Found: not found''),
       (constructor ''h'' ''t'' False)
         \<lparr>meta := JObj [(''pagination'', JObj [(''total_pages'', JNum 2)])]\<rparr>,
       ([], [get_request (constructor ''h'' ''t'' False) ''v3/catalog/products?'',
             get_request (constructor ''h'' ''t'' False) ''v3/catalog/products?page=2'']),
       [(''page'', JNum 3)])\<close>
proof -
  have nok: "\<not> ok 404" by (simp add: ok_def)
  note first = non_2xx_fails_terminally[OF nok, where E=script_env
     and w="([Response 404 ''Not Found'' ''not found''], [])"
     and s="constructor ''h'' ''t'' False" and endpoint="''v3/catalog/products/9''"
     and queries="[]" and statusText="''Not Found''" and body="''not found''"
     and w'="([], [get_request (constructor ''h'' ''t'' False) ''v3/catalog/products/9?''])"
     and n=0 and sched="[]"]
  note later = non_2xx_fails_terminally[OF nok, where E=script_env and m=1
     and w=\<open>([Response 200 ''OK'' ''{"data":[{"id":1},{"id":2}],"meta":{"pagination":{"total_pages":2}}}'',
       Response 404 ''Not Found'' ''not found''], [])\<close>
     and s="constructor ''h'' ''t'' False" and endpoint="''v3/catalog/products''"
     and queries="[]" and statusText="''Not Found''" and body="''not found''"
     and i=1 and sched="[]" and ep="''v3/catalog/products?page=2''"
     and input="[Fulfilled (JArr [JObj [(''id'', JNum 1)], JObj [(''id'', JNum 2)]]),
                Suspended (GetCall ''v3/catalog/products?page=2''
                  (Response 404 ''Not Found'' ''not found''))]"
     and ?s1.0="(constructor ''h'' ''t'' False)
         \<lparr>meta := JObj [(''pagination'', JObj [(''total_pages'', JNum 2)])]\<rparr>"
     and ?w1.0="([], [get_request (constructor ''h'' ''t'' False) ''v3/catalog/products?'',
             get_request (constructor ''h'' ''t'' False) ''v3/catalog/products?page=2''])"
     and ?q1.0="[(''page'', JNum 3)]"]
  have a: \<open>get script_env 1 (constructor ''h'' ''t'' False)
     ([Response 404 ''Not Found'' ''not found''], []) ''v3/catalog/products/9'' []
   = Some (Inl (Error ''404 - Not Found: not found''), constructor ''h'' ''t'' False,
       ([], [get_request (constructor ''h'' ''t'' False) ''v3/catalog/products/9?'']))
   \<and> getAll script_env 1 [] (constructor ''h'' ''t'' False)
     ([Response 404 ''Not Found'' ''not found''], []) ''v3/catalog/products/9'' []
   = Some (Inl (Error ''404 - Not Found: not found''), constructor ''h'' ''t'' False,
       ([], [get_request (constructor ''h'' ''t'' False) ''v3/catalog/products/9?'']), [])\<close>
    using first by (simp add: qs_empty ok_def message_404)
  have b: \<open>getAll script_env 1 [1] (constructor ''h'' ''t'' False)
     ([Response 200 ''OK'' ''{"data":[{"id":1},{"id":2}],"meta":{"pagination":{"total_pages":2}}}'',
       Response 404 ''Not Found'' ''not found''], [])
     ''v3/catalog/products'' []
   = Some (Inl (Error ''404 - Not Found: not found''),
       (constructor ''h'' ''t'' False)
         \<lparr>meta := JObj [(''pagination'', JObj [(''total_pages'', JNum 2)])]\<rparr>,
       ([], [get_request (constructor ''h'' ''t'' False) ''v3/catalog/products?'',
             get_request (constructor ''h'' ''t'' False) ''v3/catalog/products?page=2'']),
       [(''page'', JNum 3)])\<close>
    using later paginate_page_404 by (simp add: message_404)
  show ?thesis using a b by simp
qed


section \<open>Pagination\<close>

lemma paginate_rec_later_pages:
  assumes tp: "total_pages_of s = Inr tot" and num: "js_toNumber tot = Some (Number t)"
  shows "k = nat (t - current) \<Longrightarrow>
         (\<forall>c. AList.update ''page'' c q = AList.update ''page'' c q0) \<Longrightarrow>
         paginate_rec E s w endpoint q accum current =
           (case later_pages E s w endpoint q0 (current + 1) t of
              (ts, w') \<Rightarrow> (Inr (accum @ ts), w', AList.update ''page'' (JNum (max current t + 1)) q0))"
proof (induction k arbitrary: current w q accum)
  case 0
  then have le: "t \<le> current" by simp
  then have "js_less current tot = Some False" using num by (simp add: js_less_def)
  then show ?case
    using tp le 0
    by (simp add: paginate_rec.simps[of E s w endpoint q accum current]
        later_pages.simps[of E s w endpoint q0 "current + 1" t] max_def)
next
  case (Suc k)
  then have lt: "current < t" by simp
  then have less: "js_less current tot = Some True" using num by (simp add: js_less_def)
  have k: "k = nat (t - (current + 1))" using Suc.prems by simp
  have upd: "AList.update ''page'' (JNum (current + 1)) q = AList.update ''page'' (JNum (current + 1)) q0"
    using Suc.prems by simp
  have upd': "\<forall>c. AList.update ''page'' c (AList.update ''page'' (JNum (current + 1)) q0)
      = AList.update ''page'' c q0" by simp
  obtain t1 w1 where gs: "get_start E s w endpoint (AList.update ''page'' (JNum (current + 1)) q0) = (t1, w1)"
    by (cases "get_start E s w endpoint (AList.update ''page'' (JNum (current + 1)) q0)") auto
  have mx: "max (current + 1) t = max current t" using lt by simp
  show ?case
    using tp less lt gs upd mx
      Suc.IH[OF k upd', of w1 "accum @ [Suspended t1]"]
    by (simp add: paginate_rec.simps[of E s w endpoint q accum current]
        later_pages.simps[of E s w endpoint q0 "current + 1" t] split: prod.splits)
qed

lemma paginate_rec_nan:
  assumes tp: "total_pages_of s = Inr tot" and num: "js_toNumber tot = Some NaN"
  shows "paginate_rec E s w endpoint q accum current =
           (Inr accum, w, AList.update ''page'' (JNum (current + 1)) q)"
  using tp num
  by (simp add: paginate_rec.simps[of E s w endpoint q accum current] js_less_def)

lemma paginate_rec_undecided:
  assumes tp: "total_pages_of s = Inr tot" and num: "js_toNumber tot = None"
  shows "paginate_rec E s w endpoint q accum current =
           (Inl Unmodelled, w, AList.update ''page'' (JNum (current + 1)) q)"
  using tp num
  by (simp add: paginate_rec.simps[of E s w endpoint q accum current] js_less_def)

lemma paginate_rec_error:
  assumes tp: "total_pages_of s = Inl e"
  shows "paginate_rec E s w endpoint q accum current = (Inl e, w, q)"
  using tp by (simp add: paginate_rec.simps[of E s w endpoint q accum current])

text \<open>
  Claim C8. The source's \<^verbatim>\<open>_paginate\<close> reads \<^verbatim>\<open>this.meta.pagination.total_pages\<close> at every
  iteration, but no fetch is resumed between the first page and the end of the loop, so
  every read yields the value the first page left: \<^verbatim>\<open>paginate\<close> returns the same entries,
  leaves the same session and hands the same requests to the transport as the variant
  that reads \<^verbatim>\<open>total_pages\<close> once after the first fetch and then fetches the pages from
  2 to that total.
\<close>

theorem paginate_reads_total_once:
  "map_option (\<lambda>(r, s', w', queries'). (r, s', w')) (paginate E n s w endpoint queries)
     = paginate_once E n s w endpoint queries"
proof (cases "get E n s w endpoint queries")
  case None
  then show ?thesis by (simp add: paginate_def paginate_once_def)
next
  case (Some res)
  obtain r s1 w1 where res: "res = (r, s1, w1)" by (cases res) auto
  show ?thesis
  proof (cases r)
    case (Inl e)
    then show ?thesis using Some res by (simp add: paginate_def paginate_once_def)
  next
    case (Inr d)
    show ?thesis
    proof (cases "total_pages_of s1")
      case (Inl e)
      then show ?thesis
        using Some res Inr
        by (simp add: paginate_def paginate_once_def paginate_rec_error[OF Inl])
    next
      case tot: (Inr tot)
      show ?thesis
      proof (cases "js_toNumber tot")
        case None
        then show ?thesis
          using Some res Inr tot
          by (simp add: paginate_def paginate_once_def paginate_rec_undecided[OF tot None])
      next
        case num: (Some tp)
        show ?thesis
        proof (cases tp)
          case NaN
          then have nan: "js_toNumber tot = Some NaN" using num by simp
          show ?thesis
            using Some res Inr tot nan
            by (simp add: paginate_def paginate_once_def paginate_rec_nan[OF tot nan]
                later_pages.simps[of _ _ _ _ _ 2 1])
        next
          case (Number t)
          then have nt: "js_toNumber tot = Some (Number t)" using num by simp
          from paginate_rec_later_pages[OF tot nt refl, of queries queries E w1 endpoint "[Fulfilled d]" 1]
          show ?thesis
            using Some res Inr tot nt
            by (simp add: paginate_def paginate_once_def split: prod.splits)
        qed
      qed
    qed
  qed
qed

subsection \<open>The entries of paginate\<close>









subsection \<open>Runs of paginate and getAll\<close>

text \<open>
  Claim C7 on the code: \<^verbatim>\<open>paginate\<close> on a collection of five pages. When it returns,
  before \<^verbatim>\<open>BlueBirdProm.map\<close> has seen the array, the requests for pages 2 to 5 have
  all been handed to the transport and their four calls are suspended on them: four
  page fetches are in flight at once.
\<close>

theorem paginate_issues_every_fetch:
  \<open>paginate script_env 1 (constructor ''h'' ''t'' False)
     (replicate (Suc (Suc (Suc (Suc (Suc 0))))) (Response 200 ''OK'' ''{"data":[],"meta":{"pagination":{"total_pages":5}}}''), [])
     ''v3/x'' []
   = Some (Inr [Fulfilled (JArr []),
                Suspended (GetCall ''v3/x?page=2''
                  (Response 200 ''OK'' ''{"data":[],"meta":{"pagination":{"total_pages":5}}}'')),
                Suspended (GetCall ''v3/x?page=3''
                  (Response 200 ''OK'' ''{"data":[],"meta":{"pagination":{"total_pages":5}}}'')),
                Suspended (GetCall ''v3/x?page=4''
                  (Response 200 ''OK'' ''{"data":[],"meta":{"pagination":{"total_pages":5}}}'')),
                Suspended (GetCall ''v3/x?page=5''
                  (Response 200 ''OK'' ''{"data":[],"meta":{"pagination":{"total_pages":5}}}''))],
           (constructor ''h'' ''t'' False)
             \<lparr>meta := JObj [(''pagination'', JObj [(''total_pages'', JNum 5)])]\<rparr>,
           ([], [get_request (constructor ''h'' ''t'' False) ''v3/x?'',
                 get_request (constructor ''h'' ''t'' False) ''v3/x?page=2'',
                 get_request (constructor ''h'' ''t'' False) ''v3/x?page=3'',
                 get_request (constructor ''h'' ''t'' False) ''v3/x?page=4'',
                 get_request (constructor ''h'' ''t'' False) ''v3/x?page=5'']),
           [(''page'', JNum 6)])\<close>
  using parse_five_pages
  by (simp add: paginate_def paginate_rec.simps total_pages_of_def js_less_def safe_integer_def get_start_def Let_def
      qs_empty qs_page ok_def readResponse_def get_request_def constructor_def Let_def)

text \<open>
  Claim C1 on the code: \<^verbatim>\<open>getAll\<close> on a collection of two pages, of two items and of one
  item. The result is the array of the two pages' data arrays, of length 2; it is not the
  sequence of the three items.
\<close>

theorem getAll_returns_pages_unflattened:
  \<open>getAll script_env 1 [1] (constructor ''h'' ''t'' False)
     ([Response 200 ''OK'' ''{"data":[{"id":1},{"id":2}],"meta":{"pagination":{"total_pages":2}}}'',
       Response 200 ''OK'' ''{"data":[{"id":3}],"meta":{"pagination":{"total_pages":2}}}''], [])
     ''v3/catalog/products'' []
   = Some (Inr (JArr [JArr [JObj [(''id'', JNum 1)], JObj [(''id'', JNum 2)]],
                      JArr [JObj [(''id'', JNum 3)]]]),
           (constructor ''h'' ''t'' False)
             \<lparr>meta := JObj [(''pagination'', JObj [(''total_pages'', JNum 2)])]\<rparr>,
           ([], [get_request (constructor ''h'' ''t'' False) ''v3/catalog/products?'',
                 get_request (constructor ''h'' ''t'' False) ''v3/catalog/products?page=2'']),
           [(''page'', JNum 3)])\<close>
  using parse_page_1_of_2 parse_page_2_of_2
  by (simp add: getAll_def BlueBirdProm_map_def paginate_def paginate_rec.simps total_pages_of_def
      js_less_def safe_integer_def get_start_def Let_def
      qs_empty qs_page ok_def readResponse_def get_request_def constructor_def Let_def)


section \<open>Completion order\<close>

lemma readResponse_fst: "fst (readResponse E s body) = read_data E body"
  by (simp add: readResponse_def read_data_def split: option.splits sum.splits)

lemma resume_settles:
  assumes "settles_to E (Suspended t) v"
  shows "\<exists>s'. resume E s w q t = (Fulfilled v, s', w)
           \<and> ((\<forall>ep out. t \<noteq> GetCall ep out) \<longrightarrow> s' = s)"
proof (cases t)
  case (GetCall ep out)
  then obtain status statusText body where out: "out = Response status statusText body"
    using assms by (cases out) auto
  have okk: "ok status" and rd: "read_data E body = Inr v"
    using assms GetCall out by auto
  obtain r s1 where rr: "readResponse E s body = (r, s1)"
    by (cases "readResponse E s body") auto
  then have "r = Inr v" using readResponse_fst[of E s body] rd by simp
  then show ?thesis using GetCall out okk rr by simp
next
  case (DeleteCall ep out own awaiting)
  then obtain status statusText body where out: "out = Response status statusText body"
    using assms by (cases out) auto
  then show ?thesis using assms DeleteCall by auto
qed

lemma fulfilled_values:
  "list_all2 (settles_to E) slots vs \<Longrightarrow> list_all is_Fulfilled slots
   \<Longrightarrow> map slot_value slots = vs"
proof (induction slots vs rule: list_all2_induct)
  case Nil
  then show ?case by simp
next
  case (Cons sl slots v vs)
  then show ?case by (cases sl) auto
qed

lemma settle_fulfils:
  assumes "list_all2 (settles_to E) slots vs"
      and "{i. i < length slots \<and> \<not> is_Fulfilled (slots ! i)} \<subseteq> set sched"
  shows "\<exists>s'. settle E q sched s w slots = Some (Inr vs, s', w)
           \<and> ((\<forall>sl \<in> set slots. \<forall>ep out. sl \<noteq> Suspended (GetCall ep out)) \<longrightarrow> s' = s)"
  using assms
proof (induction sched arbitrary: s slots)
  case Nil
  then have "list_all is_Fulfilled slots" by (auto simp: list_all_length)
  then show ?case using Nil fulfilled_values[of E slots vs] by simp
next
  case (Cons i sched)
  show ?case
  proof (cases "list_all is_Fulfilled slots")
    case True
    then show ?thesis using Cons.prems fulfilled_values[of E slots vs] by simp
  next
    case nf: False
    show ?thesis
    proof (cases "i < length slots")
      case False
      then have "{i. i < length slots \<and> \<not> is_Fulfilled (slots ! i)} \<subseteq> set sched"
        using Cons.prems(2) by auto
      from Cons.IH[OF Cons.prems(1) this, of s] show ?thesis using nf False by simp
    next
      case True
      have st: "settles_to E (slots ! i) (vs ! i)"
        using Cons.prems(1) True by (simp add: list_all2_conv_all_nth)
      show ?thesis
      proof (cases "slots ! i")
        case (Fulfilled v)
        then have "{i. i < length slots \<and> \<not> is_Fulfilled (slots ! i)} \<subseteq> set sched"
          using Cons.prems(2) by auto
        from Cons.IH[OF Cons.prems(1) this, of s] show ?thesis using nf True Fulfilled by simp
      next
        case (Rejected e)
        then show ?thesis using st by simp
      next
        case (Suspended t)
        then obtain s1 where res: "resume E s w q t = (Fulfilled (vs ! i), s1, w)"
          and same: "(\<forall>ep out. t \<noteq> GetCall ep out) \<longrightarrow> s1 = s"
          using resume_settles[of E t "vs ! i" s w q] st by auto
        let ?slots = "slots[i := Fulfilled (vs ! i)]"
        have a: "list_all2 (settles_to E) ?slots vs"
          using Cons.prems(1) True by (auto simp: list_all2_conv_all_nth nth_list_update)
        have b: "{j. j < length ?slots \<and> \<not> is_Fulfilled (?slots ! j)} \<subseteq> set sched"
          using Cons.prems(2) True by (auto simp: nth_list_update split: if_splits)
        from Cons.IH[OF a b, of s1]
        obtain s' where fin: "settle E q sched s1 w ?slots = Some (Inr vs, s', w)"
          and keep: "(\<forall>sl \<in> set ?slots. \<forall>ep out. sl \<noteq> Suspended (GetCall ep out)) \<longrightarrow> s' = s1"
          by auto
        have eq: "settle E q (i # sched) s w slots = Some (Inr vs, s', w)"
          using nf True Suspended res fin by simp
        have "(\<forall>sl \<in> set slots. \<forall>ep out. sl \<noteq> Suspended (GetCall ep out)) \<longrightarrow> s' = s"
        proof
          assume no: "\<forall>sl \<in> set slots. \<forall>ep out. sl \<noteq> Suspended (GetCall ep out)"
          have "slots ! i \<in> set slots" using True by simp
          then have "\<forall>ep out. t \<noteq> GetCall ep out" using no Suspended by auto
          then have "s1 = s" using same by simp
          moreover have "\<forall>sl \<in> set ?slots. \<forall>ep out. sl \<noteq> Suspended (GetCall ep out)"
            using no by (auto dest!: set_update_subset_insert[THEN subsetD])
          ultimately show "s' = s" using keep by simp
        qed
        then show ?thesis using eq by simp
      qed
    qed
  qed
qed

text \<open>Whatever the order in which the page fetches are resumed, \<^verbatim>\<open>getAll\<close> returns the
  pages' data in the order of the entries of \<^verbatim>\<open>paginate\<close>.\<close>

lemma getAll_any_schedule:
  assumes "paginate E n s w endpoint queries = Some (Inr input, s1, w1, q1)"
      and "list_all2 (settles_to E) input pages"
      and "{i. i < length input \<and> \<not> is_Fulfilled (input ! i)} \<subseteq> set sched"
  shows "\<exists>s2. getAll E n sched s w endpoint queries = Some (Inr (JArr pages), s2, w1, q1)"
  using assms(1) settle_fulfils[OF assms(2) assms(3), of q1 s1 w1]
  by (auto simp: getAll_def BlueBirdProm_map_def)



section \<open>deleteAll against the store\<close>


lemma pages_of_Nil [simp]: "pages_of L [] = []"
  by (simp add: pages_of.simps)






















end
